theory Spec2Isabelle
  imports Complex_Main
begin

section \<open>Learning-rate decay schedules (opennmt/utils/decay.py)\<close>

text \<open>
  The schedules compute in \<^verbatim>\<open>tf.float32\<close>. The embedding idealises that arithmetic as
  arithmetic over \<^typ>\<open>real\<close>: \<^verbatim>\<open>tf.cast(x, tf.float32)\<close> is the inclusion of the integers
  into the reals, rounding is not modelled. The caller's step is the optimizer's integer
  iteration counter, an \<^typ>\<open>int\<close>.

  \<^verbatim>\<open>tf.pow\<close> is embedded by \<open>powr\<close>. They agree on a positive base; on a base that is
  zero or negative TensorFlow yields an infinity or a NaN, which the reals do not have,
  so every statement below about a value (as opposed to the shape of a formula) is about
  positive bases.
\<close>

datatype error =
  ZeroDivisionError | UnboundLocalError | OverflowError | ValueError | AttributeError

definition tf_pow :: "real \<Rightarrow> real \<Rightarrow> real" where
  "tf_pow x y = x powr y"

text \<open>
  \<^verbatim>\<open>tf.rsqrt\<close>: the module defines its classes on \<^verbatim>\<open>tf.optimizers.schedules\<close>, which only
  TensorFlow 2 has, and the root namespace of TensorFlow 2 exports no \<^verbatim>\<open>rsqrt\<close> (the
  function is \<^verbatim>\<open>tf.math.rsqrt\<close> there). Reading the attribute raises, before any argument
  of the call is evaluated.
\<close>

definition tf_rsqrt :: "error + (real \<Rightarrow> real)" where
  "tf_rsqrt = Inl AttributeError"

subsection \<open>NoamDecay\<close>

record NoamDecay =
  noam_scale :: real
  noam_model_dim :: real
  noam_warmup_steps :: real

definition NoamDecay_init :: "real \<Rightarrow> real \<Rightarrow> real \<Rightarrow> NoamDecay" where
  "NoamDecay_init scale model_dim warmup_steps =
     \<lparr> noam_scale = scale, noam_model_dim = model_dim, noam_warmup_steps = warmup_steps \<rparr>"

definition NoamDecay_call :: "NoamDecay \<Rightarrow> int \<Rightarrow> real" where
  "NoamDecay_call self step0 =
     (let step = real_of_int (step0 + 1)
      in noam_scale self
         * tf_pow (noam_model_dim self) (- 0.5)
         * min (tf_pow step (- 0.5)) (step * tf_pow (noam_warmup_steps self) (- 1.5)))"

subsection \<open>RsqrtDecay\<close>

record RsqrtDecay =
  rsqrt_scale :: real
  rsqrt_warmup_steps :: real

definition RsqrtDecay_init :: "real \<Rightarrow> real \<Rightarrow> RsqrtDecay" where
  "RsqrtDecay_init scale warmup_steps =
     \<lparr> rsqrt_scale = scale, rsqrt_warmup_steps = warmup_steps \<rparr>"

definition RsqrtDecay_call :: "RsqrtDecay \<Rightarrow> int \<Rightarrow> error + real" where
  "RsqrtDecay_call self step0 =
     (let step = real_of_int step0
      in case tf_rsqrt of
           Inl e \<Rightarrow> Inl e
         | Inr rsqrt \<Rightarrow> Inr (rsqrt_scale self * rsqrt (max step (rsqrt_warmup_steps self))))"

subsection \<open>CosineAnnealing\<close>

text \<open>\<^verbatim>\<open>warmup_steps\<close> is \<^verbatim>\<open>None\<close> unless configured: an option.\<close>

record CosineAnnealing =
  cos_eta_max :: real
  cos_eta_min :: real
  cos_max_step :: real
  cos_warmup_steps :: "real option"

definition CosineAnnealing_init ::
  "real \<Rightarrow> real \<Rightarrow> real \<Rightarrow> real option \<Rightarrow> CosineAnnealing" where
  "CosineAnnealing_init eta_max eta_min max_step warmup_steps =
     \<lparr> cos_eta_max = eta_max, cos_eta_min = eta_min, cos_max_step = max_step,
       cos_warmup_steps = warmup_steps \<rparr>"

definition CosineAnnealing_call :: "CosineAnnealing \<Rightarrow> int \<Rightarrow> real" where
  "CosineAnnealing_call self step0 =
     (let step = real_of_int step0;
          annealing = cos_eta_min self
            + 0.5 * (cos_eta_max self - cos_eta_min self)
              * (1 + cos (pi * step / cos_max_step self))
      in case cos_warmup_steps self of
           None \<Rightarrow> annealing
         | Some w \<Rightarrow> if step < w then cos_eta_max self * step / w else annealing)"

subsection \<open>RNMTPlusDecay\<close>

record RNMTPlusDecay =
  rnmt_scale :: real
  rnmt_num_replicas :: real
  rnmt_warmup_steps :: real
  rnmt_start_step :: real
  rnmt_end_step :: real

definition RNMTPlusDecay_init ::
  "real \<Rightarrow> real \<Rightarrow> real \<Rightarrow> real \<Rightarrow> real \<Rightarrow> RNMTPlusDecay" where
  "RNMTPlusDecay_init scale num_replicas warmup_steps start_step end_step =
     \<lparr> rnmt_scale = scale, rnmt_num_replicas = num_replicas,
       rnmt_warmup_steps = warmup_steps, rnmt_start_step = start_step,
       rnmt_end_step = end_step \<rparr>"

definition RNMTPlusDecay_call :: "RNMTPlusDecay \<Rightarrow> int \<Rightarrow> real" where
  "RNMTPlusDecay_call self step =
     (let t = real_of_int step;
          n = rnmt_num_replicas self;
          p = rnmt_warmup_steps self;
          s = rnmt_start_step self;
          e = rnmt_end_step self
      in rnmt_scale self
         * min (min (1 + (t * (n - 1)) / (n * p)) n)
               (n * tf_pow (2 * n) ((s - n * t) / (e - s))))"

subsection \<open>The schedule interface\<close>

text \<open>
  The four classes share one capability, \<^verbatim>\<open>__call__(step)\<close>; the optimizer's learning
  rate may be an object of any of them. A call returns its value or raises.
\<close>

datatype schedule =
  Noam NoamDecay
| Rsqrt RsqrtDecay
| Cosine CosineAnnealing
| RNMTPlus RNMTPlusDecay

fun evaluate :: "schedule \<Rightarrow> int \<Rightarrow> error + real" where
  "evaluate (Noam self) step = Inr (NoamDecay_call self step)"
| "evaluate (Rsqrt self) step = RsqrtDecay_call self step"
| "evaluate (Cosine self) step = Inr (CosineAnnealing_call self step)"
| "evaluate (RNMTPlus self) step = Inr (RNMTPlusDecay_call self step)"


section \<open>The training loop (opennmt/training.py)\<close>

text \<open>
  Collaborators that the trainer only calls (the model, the optimizer's update rule, the
  wall clock) are parameters of the embedding. The run is modelled on one device, the
  trainer's default when no device list is given; the mean and the sum over one replica
  are the identity. Counters are Python and int64 integers far from their bounds: \<^typ>\<open>int\<close>.
\<close>

text \<open>\<^verbatim>\<open>optimizer.learning_rate\<close> is a number or a schedule.\<close>

datatype rate = ConstantRate real | ScheduledRate schedule

text \<open>
  What the run does to the outside is kept as a log, in call order: the logger's warning,
  one report (step, loss, words per second of each key, resolved learning rate),
  \<^verbatim>\<open>checkpoint.save(step)\<close> and \<^verbatim>\<open>evaluator(step)\<close>.
\<close>

datatype event =
  Warning int
| Report int real "(string \<times> int) list" real
| Save int
| Eval int

text \<open>A batch: the \<^verbatim>\<open>"length"\<close> entry of each side, when present, and the rest.\<close>

record 'b batch =
  source_length :: "int list option"
  target_length :: "int list option"
  content :: 'b

record ('v, 'b) collaborators =
  zeros_like :: "'v \<Rightarrow> 'v"
  tensor_add :: "'v \<Rightarrow> 'v \<Rightarrow> 'v"
  model_loss :: "'v list \<Rightarrow> int \<Rightarrow> 'b batch \<Rightarrow> real \<times> real"
  compute_gradients :: "'v list \<Rightarrow> int \<Rightarrow> 'b batch \<Rightarrow> 'v list"
  optimizer_update :: "int \<Rightarrow> 'v \<Rightarrow> 'v \<Rightarrow> 'v"
  learning_rate :: rate
  start_time :: real
  time_in_step :: "nat \<Rightarrow> real"

text \<open>The arguments of \<^verbatim>\<open>Trainer.__call__\<close>; \<open>evaluator\<close> tells whether one is given.\<close>

record config =
  max_step :: "int option"
  accum_steps :: int
  report_steps :: int
  save_steps :: "int option"
  evaluator :: bool
  eval_steps :: "int option"

text \<open>
  The objects the trainer holds: the model's variables, the optimizer's iteration
  counter, and the log. The locals of \<^verbatim>\<open>__call__\<close> extend them while the loop runs;
  \<open>step\<close> is \<open>None\<close> until the loop body binds it.
\<close>

record 'v trainer =
  variables :: "'v list"
  iterations :: int
  events :: "event list"

record 'v loop_vars = "'v trainer" +
  gradients :: "'v list"
  accum_num_words :: "(string \<times> int) list"
  last_report_time :: real
  last_step :: int
  step :: "int option"

subsection \<open>Integer remainders\<close>

text \<open>
  \<^verbatim>\<open>(i + 1) % accum_steps\<close> is on Python integers and raises on a zero divisor.
  \<^verbatim>\<open>step % report_steps\<close> has a NumPy int64 on the left (\<^verbatim>\<open>iterations.numpy()\<close>):
  NumPy's remainder by zero is 0, with a warning. Both round towards minus infinity,
  as \<open>mod\<close> on \<^typ>\<open>int\<close> does.
\<close>

definition py_mod :: "int \<Rightarrow> int \<Rightarrow> error + int" where
  "py_mod a b = (if b = 0 then Inl ZeroDivisionError else Inr (a mod b))"

definition np_mod :: "int \<Rightarrow> int \<Rightarrow> int" where
  "np_mod a b = (if b = 0 then 0 else a mod b)"

subsection \<open>The closures of \<^verbatim>\<open>__call__\<close>\<close>

definition reduce_sum :: "int list \<Rightarrow> int" where
  "reduce_sum xs = sum_list xs"

text \<open>
  Lines 79-83: the word counts of a batch, one entry for each side that has a
  \<^verbatim>\<open>"length"\<close>.
\<close>

definition num_words_of :: "'b batch \<Rightarrow> (string \<times> int) list" where
  "num_words_of b =
     (case source_length b of None \<Rightarrow> [] | Some l \<Rightarrow> [(''source'', reduce_sum l)])
     @ (case target_length b of None \<Rightarrow> [] | Some l \<Rightarrow> [(''target'', reduce_sum l)])"

text \<open>
  Lines 77-78: each step gradient is added into its accumulator; \<^verbatim>\<open>zip\<close> stops at the
  shorter list, and an accumulator beyond it keeps its value.
\<close>

definition assign_add_all ::
  "('v, 'b) collaborators \<Rightarrow> 'v list \<Rightarrow> 'v list \<Rightarrow> 'v list" where
  "assign_add_all co grads step_gradients =
     map (\<lambda>(gradient, step_gradient). tensor_add co gradient step_gradient)
       (zip grads step_gradients)
     @ drop (length step_gradients) grads"

text \<open>
  Lines 68-84 and 92-101: the loss of the batch, the gradients accumulated, and the word
  counts.
\<close>

definition accumulate_gradients ::
  "('v, 'b) collaborators \<Rightarrow> 'v loop_vars \<Rightarrow> 'b batch
     \<Rightarrow> real \<times> (string \<times> int) list \<times> 'v loop_vars" where
  "accumulate_gradients co st b =
     (let loss = model_loss co (variables st) (iterations st) b;
          loss = fst loss / snd loss;
          step_gradients = compute_gradients co (variables st) (iterations st) b
      in (loss, num_words_of b,
          st\<lparr>gradients := assign_add_all co (gradients st) step_gradients\<rparr>))"

text \<open>
  Lines 86-89 and 103-106: the optimizer updates each variable from its accumulator and
  counts one iteration (the contract of \<^verbatim>\<open>apply_gradients\<close>), then every accumulator is
  zeroed.
\<close>

definition optimizer_apply_gradients ::
  "('v, 'b) collaborators \<Rightarrow> int \<Rightarrow> 'v list \<Rightarrow> 'v list \<Rightarrow> 'v list" where
  "optimizer_apply_gradients co its grads vars =
     map (\<lambda>(gradient, variable). optimizer_update co its gradient variable) (zip grads vars)
     @ drop (length grads) vars"

definition apply_gradients :: "('v, 'b) collaborators \<Rightarrow> 'v loop_vars \<Rightarrow> 'v loop_vars" where
  "apply_gradients co st =
     st\<lparr> variables := optimizer_apply_gradients co (iterations st) (gradients st) (variables st),
         iterations := iterations st + 1,
         gradients := map (zeros_like co) (gradients st) \<rparr>"

subsection \<open>Running totals of words\<close>

text \<open>\<^verbatim>\<open>accum_num_words[key] += value\<close> on a \<^verbatim>\<open>defaultdict(int)\<close>, in insertion order.\<close>

fun add_words :: "(string \<times> int) list \<Rightarrow> string \<times> int \<Rightarrow> (string \<times> int) list" where
  "add_words [] (key, val) = [(key, 0 + val)]"
| "add_words ((k, v) # kvs) (key, val) =
     (if k = key then (k, v + val) # kvs else (k, v) # add_words kvs (key, val))"

subsection \<open>Reporting (lines 140-164)\<close>

text \<open>
  \<^verbatim>\<open>int(value / elapsed)\<close> truncates towards zero. With no time elapsed the quotient of a
  NumPy integer is an infinity or a NaN, and \<^verbatim>\<open>int\<close> raises on the first key. After the
  averages the learning rate is resolved: a schedule is evaluated at the step, and what
  that call raises, the report raises.
\<close>

definition int_of_float :: "real \<Rightarrow> int" where
  "int_of_float x = (if 0 \<le> x then \<lfloor>x\<rfloor> else \<lceil>x\<rceil>)"

definition words_per_sec ::
  "(string \<times> int) list \<Rightarrow> real \<Rightarrow> error + (string \<times> int) list" where
  "words_per_sec accum elapsed =
     (case accum of
        [] \<Rightarrow> Inr []
      | (k, v) # _ \<Rightarrow>
          if elapsed = 0 then Inl (if v = 0 then ValueError else OverflowError)
          else Inr (map (\<lambda>(key, val). (key, int_of_float (real_of_int val / elapsed))) accum))"

definition report_training_status ::
  "int \<Rightarrow> real \<Rightarrow> rate \<Rightarrow> (string \<times> int) list \<Rightarrow> real \<Rightarrow> real
     \<Rightarrow> error + (event \<times> (string \<times> int) list \<times> real)" where
  "report_training_status stp loss lr accum last_time new_report_time =
     (case words_per_sec accum (new_report_time - last_time) of
        Inl e \<Rightarrow> Inl e
      | Inr avgs \<Rightarrow>
          (case (case lr of ConstantRate r \<Rightarrow> Inr r | ScheduledRate s \<Rightarrow> evaluate s stp) of
             Inl e \<Rightarrow> Inl e
           | Inr resolved \<Rightarrow>
               Inr (Report stp loss avgs resolved,
                    map (\<lambda>(key, val). (key, 0)) accum,
                    new_report_time)))"

subsection \<open>The loop (lines 112-135)\<close>

text \<open>
  Lines 122-135, reached when the counter differs from the step seen last: report, save,
  evaluate, and tell whether the loop breaks.
\<close>

definition post_process ::
  "('v, 'b) collaborators \<Rightarrow> config \<Rightarrow> nat \<Rightarrow> real \<Rightarrow> int \<Rightarrow> 'v loop_vars
     \<Rightarrow> error + ('v loop_vars \<times> bool)" where
  "post_process co c i loss stp st0 =
     (let st = st0\<lparr>last_step := stp\<rparr>
      in case (if np_mod stp (report_steps c) = 0
               then (case report_training_status stp loss (learning_rate co)
                            (accum_num_words st) (last_report_time st) (time_in_step co i) of
                       Inl e \<Rightarrow> Inl e
                     | Inr (ev, accum, t) \<Rightarrow>
                         Inr (st\<lparr>accum_num_words := accum, last_report_time := t,
                                 events := events st @ [ev]\<rparr>))
               else Inr st) of
           Inl e \<Rightarrow> Inl e
         | Inr st \<Rightarrow>
             (let st = (case save_steps c of
                          None \<Rightarrow> st
                        | Some n \<Rightarrow> if np_mod stp n = 0
                                    then st\<lparr>events := events st @ [Save stp]\<rparr> else st);
                  st = (case eval_steps c of
                          None \<Rightarrow> st
                        | Some n \<Rightarrow> if evaluator c \<and> np_mod stp n = 0
                                    then st\<lparr>events := events st @ [Eval stp]\<rparr> else st)
              in Inr (st, max_step c = Some stp)))"

text \<open>
  One pass of the \<^verbatim>\<open>for\<close> body at index \<open>i\<close>, with the batch that \<^verbatim>\<open>_forward\<close> draws for
  it. The result tells whether the body ended in \<^verbatim>\<open>break\<close>.
\<close>

definition loop_body ::
  "('v, 'b) collaborators \<Rightarrow> config \<Rightarrow> nat \<Rightarrow> 'v loop_vars \<Rightarrow> 'b batch
     \<Rightarrow> error + ('v loop_vars \<times> bool)" where
  "loop_body co c i st0 b =
     (case accumulate_gradients co st0 b of
        (loss, num_words, st) \<Rightarrow>
          (case (if i = 0 then Inr True
                 else (case py_mod (int i + 1) (accum_steps c) of
                         Inl e \<Rightarrow> Inl e
                       | Inr r \<Rightarrow> Inr (r = 0))) of
             Inl e \<Rightarrow> Inl e
           | Inr apply_now \<Rightarrow>
               (let st = (if apply_now then apply_gradients co st else st);
                    st = st\<lparr>accum_num_words := foldl add_words (accum_num_words st) num_words\<rparr>;
                    stp = iterations st;
                    st = st\<lparr>step := Some stp\<rparr>
                in if stp = last_step st then Inr (st, False)
                   else post_process co c i loss stp st)))"

text \<open>
  Modelled from the spec: \<^verbatim>\<open>dataset_util.function_on_next\<close> (opennmt/data/dataset.py),
  the decorator that turns \<^verbatim>\<open>_forward\<close> into the generator the loop iterates, is not among
  the sources. By the specification (4.3, step 1, and section 7) drawing the next batch
  from the dataset fails with StreamExhausted when no data is left, which ends the loop
  and is no error of the call; the dataset is finite. So the dataset is a list of
  batches, and a draw gives the next batch and the rest, or nothing.
\<close>

definition next_batch :: "'b batch list \<Rightarrow> ('b batch \<times> 'b batch list) option" where
  "next_batch dataset = (case dataset of [] \<Rightarrow> None | b # rest \<Rightarrow> Some (b, rest))"

text \<open>
  The \<^verbatim>\<open>for\<close> loop over \<^verbatim>\<open>enumerate(_forward())\<close>. The Boolean of the result is True when
  the loop ended in \<^verbatim>\<open>break\<close>, False when the stream ran out. Every draw shortens the
  dataset, so the loop ends.
\<close>

function train_loop ::
  "('v, 'b) collaborators \<Rightarrow> config \<Rightarrow> nat \<Rightarrow> 'v loop_vars \<Rightarrow> 'b batch list
     \<Rightarrow> error + ('v loop_vars \<times> bool)" where
  "train_loop co c i st dataset =
     (case next_batch dataset of
        None \<Rightarrow> Inr (st, False)
      | Some (b, rest) \<Rightarrow>
          (case loop_body co c i st b of
             Inl e \<Rightarrow> Inl e
           | Inr (st', brk) \<Rightarrow>
               if brk then Inr (st', True) else train_loop co c (Suc i) st' rest))"
  by pat_completeness auto
termination
  by (relation "measure (\<lambda>(co, c, i, st, dataset). length dataset)")
    (auto simp: next_batch_def split: list.splits)

declare train_loop.simps [simp del]

subsection \<open>\<^verbatim>\<open>Trainer.__call__\<close>\<close>

text \<open>The three ways out of a call that does not raise.\<close>

datatype exit_path = AlreadyReached | MaxStepReached | DatasetExhausted

text \<open>Lines 63-66 and 108-110: the locals before the loop.\<close>

definition init_loop_vars :: "('v, 'b) collaborators \<Rightarrow> 'v trainer \<Rightarrow> 'v loop_vars" where
  "init_loop_vars co tr =
     \<lparr> variables = variables tr, iterations = iterations tr, events = events tr,
       gradients = map (zeros_like co) (variables tr),
       accum_num_words = [],
       last_report_time = start_time co,
       last_step = 0,
       step = None \<rparr>"

definition Trainer_call ::
  "('v, 'b) collaborators \<Rightarrow> config \<Rightarrow> 'v trainer \<Rightarrow> 'b batch list
     \<Rightarrow> error + ('v trainer \<times> exit_path)" where
  "Trainer_call co c tr dataset =
     (case (case max_step c of
              None \<Rightarrow> None
            | Some m \<Rightarrow> if iterations tr \<ge> m then Some m else None) of
        Some m \<Rightarrow> Inr (tr\<lparr>events := events tr @ [Warning m]\<rparr>, AlreadyReached)
      | None \<Rightarrow>
          (case train_loop co c 0 (init_loop_vars co tr) dataset of
             Inl e \<Rightarrow> Inl e
           | Inr (st, brk) \<Rightarrow>
               (case step st of
                  None \<Rightarrow> Inl UnboundLocalError
                | Some stp \<Rightarrow>
                    Inr (\<lparr> variables = variables st, iterations = iterations st,
                           events = events st @ [Save stp] \<rparr>,
                         if brk then MaxStepReached else DatasetExhausted))))"


section \<open>Vocabulary of the properties\<close>

text \<open>The steps of the \<^verbatim>\<open>checkpoint.save\<close> calls in a log, in order.\<close>

fun saves :: "event list \<Rightarrow> int list" where
  "saves [] = []"
| "saves (Save n # es) = n # saves es"
| "saves (e # es) = saves es"

text \<open>
  The micro-steps at which the specification places the application of the gradients:
  the first one, and every one whose 1-based index is a multiple of the accumulation
  factor. \<open>i\<close> is the 0-based index of \<^verbatim>\<open>enumerate\<close>.
\<close>

definition applies_at :: "int \<Rightarrow> nat \<Rightarrow> bool" where
  "applies_at a i = (i = 0 \<or> a dvd int i + 1)"

text \<open>
  The RNMTPlus formula in the specification's words, with base 2 in the exponential
  term; it is compared with \<open>RNMTPlusDecay_call\<close> below.
\<close>

definition rnmtplus_base_two :: "real \<Rightarrow> real \<Rightarrow> real \<Rightarrow> real \<Rightarrow> real \<Rightarrow> int \<Rightarrow> real" where
  "rnmtplus_base_two scale replicas warmup start_step end_step t =
     scale * Min {1 + real_of_int t * (replicas - 1) / (replicas * warmup),
                  replicas,
                  replicas * 2 powr ((start_step - replicas * real_of_int t)
                                     / (end_step - start_step))}"

subsection \<open>A small run\<close>

text \<open>
  One variable of value 10, every step gradient 1, plain gradient descent with rate 1,
  batches with five source words and no target length, a clock that reads \<open>i + 1\<close>
  in micro-step \<open>i\<close>; the arguments are the defaults of \<^verbatim>\<open>__call__\<close> but for
  \<^verbatim>\<open>accum_steps=3\<close> and no evaluator.
\<close>

definition example_collaborators :: "(int, unit) collaborators" where
  "example_collaborators =
     \<lparr> zeros_like = (\<lambda>_. 0), tensor_add = (+),
       model_loss = (\<lambda>_ _ _. (2, 1)),
       compute_gradients = (\<lambda>vs _ _. map (\<lambda>_. 1) vs),
       optimizer_update = (\<lambda>_ g v. v - g),
       learning_rate = ConstantRate 1,
       start_time = 0,
       time_in_step = (\<lambda>i. real i + 1) \<rparr>"

definition example_config :: config where
  "example_config =
     \<lparr> max_step = None, accum_steps = 3, report_steps = 100, save_steps = Some 5000,
       evaluator = False, eval_steps = Some 5000 \<rparr>"

definition example_trainer :: "int trainer" where
  "example_trainer = \<lparr> variables = [10], iterations = 0, events = [] \<rparr>"

definition example_batch :: "unit batch" where
  "example_batch = \<lparr> source_length = Some [2, 3], target_length = None, content = () \<rparr>"

text \<open>The locals of the small run after its first micro-step.\<close>

definition example_mid_state :: "int loop_vars" where
  "example_mid_state =
     \<lparr> variables = [9], iterations = 1, events = [],
       gradients = [0], accum_num_words = [(''source'', 5)],
       last_report_time = 0, last_step = 1, step = Some 1 \<rparr>"


section \<open>Facts about the schedules\<close>

lemmas schedule_defs =
  NoamDecay_call_def NoamDecay_init_def
  CosineAnnealing_call_def CosineAnnealing_init_def RNMTPlusDecay_call_def
  RNMTPlusDecay_init_def tf_pow_def

lemma powr_neg_half_le_one: "1 \<le> x \<Longrightarrow> x powr (- 0.5) \<le> (1::real)"
  using powr_mono[of "- 0.5" 0 x] by simp

lemma noam_formula:
  "NoamDecay_call (NoamDecay_init scale model_dim warmup) s
     = scale * model_dim powr (- 0.5)
       * min ((real_of_int s + 1) powr (- 0.5)) ((real_of_int s + 1) * warmup powr (- 1.5))"
  by (simp add: schedule_defs Let_def)

lemma noam_bounds:
  assumes "0 \<le> s"
  shows "0 \<le> NoamDecay_call (NoamDecay_init 1 512 4000) s"
    and "NoamDecay_call (NoamDecay_init 1 512 4000) s \<le> 1"
proof -
  let ?x = "real_of_int s + 1"
  have x1: "1 \<le> ?x" using assms by simp
  show "0 \<le> NoamDecay_call (NoamDecay_init 1 512 4000) s"
    using x1 by (simp add: noam_formula)
  have a: "(512::real) powr (- 0.5) \<le> 1" by (rule powr_neg_half_le_one) simp
  have b: "min (?x powr (- 0.5)) (?x * 4000 powr (- 1.5)) \<le> 1"
    using powr_neg_half_le_one[OF x1] by (simp add: min_le_iff_disj)
  have c: "0 \<le> min (?x powr (- 0.5)) (?x * 4000 powr (- 1.5))"
    using x1 by simp
  have "(512::real) powr (- 0.5) * min (?x powr (- 0.5)) (?x * 4000 powr (- 1.5)) \<le> 1 * 1"
    by (rule mult_mono[OF a b]) (use c in simp_all)
  then show "NoamDecay_call (NoamDecay_init 1 512 4000) s \<le> 1"
    by (simp add: noam_formula)
qed

lemma RsqrtDecay_call_raises: "RsqrtDecay_call self s = Inl AttributeError"
  by (simp add: RsqrtDecay_call_def tf_rsqrt_def)

lemma cosine_no_warmup:
  "CosineAnnealing_call (CosineAnnealing_init 1 0 1000 None) s
     = 0.5 * (1 + cos (pi * real_of_int s / 1000))"
  by (simp add: schedule_defs)

lemma cosine_monotone:
  assumes "0 \<le> s" and "s \<le> t" and "t \<le> 1000"
  shows "CosineAnnealing_call (CosineAnnealing_init 1 0 1000 None) t
       \<le> CosineAnnealing_call (CosineAnnealing_init 1 0 1000 None) s"
proof -
  have "cos (pi * real_of_int t / 1000) \<le> cos (pi * real_of_int s / 1000)"
  proof (rule cos_monotone_0_pi_le)
    show "0 \<le> pi * real_of_int s / 1000" using assms by simp
    show "pi * real_of_int s / 1000 \<le> pi * real_of_int t / 1000"
      using assms by (simp add: mult_left_mono)
    have "pi * real_of_int t / 1000 \<le> pi * 1000 / 1000"
      using assms by (simp add: mult_left_mono)
    then show "pi * real_of_int t / 1000 \<le> pi" by simp
  qed
  then show ?thesis by (simp add: cosine_no_warmup)
qed

section \<open>Facts about the loop\<close>

lemma saves_append: "saves (xs @ ys) = saves xs @ saves ys"
  by (induction xs rule: saves.induct) simp_all

lemma post_process_frame:
  assumes "post_process co c i loss stp st = Inr (st', brk)"
  shows "variables st' = variables st" "iterations st' = iterations st"
    "gradients st' = gradients st" "last_step st' = stp" "step st' = step st"
    "brk = (max_step c = Some stp)"
  using assms
  by (auto simp: post_process_def Let_def split: if_splits sum.splits option.splits prod.splits)

lemma post_process_events:
  assumes "post_process co c i loss stp st = Inr (st', brk)"
  shows "\<exists>ev. events st' = events st @ ev
           \<and> saves ev = (case save_steps c of None \<Rightarrow> []
                          | Some n \<Rightarrow> if np_mod stp n = 0 then [stp] else [])"
  using assms
  by (auto simp: post_process_def Let_def report_training_status_def saves_append
      split: if_splits sum.splits option.splits prod.splits)

text \<open>
  One pass of the body that does not raise: the state after the conditional application
  and the word counts, and then either nothing more or the post-processing.
\<close>

lemma loop_body_elim:
  assumes "loop_body co c i st b = Inr (st', brk)"
  obtains loss st2 where
    "variables st2 = (if applies_at (accum_steps c) i
       then optimizer_apply_gradients co (iterations st)
              (assign_add_all co (gradients st)
                 (compute_gradients co (variables st) (iterations st) b))
              (variables st)
       else variables st)"
    "gradients st2 = (if applies_at (accum_steps c) i
       then map (zeros_like co)
              (assign_add_all co (gradients st)
                 (compute_gradients co (variables st) (iterations st) b))
       else assign_add_all co (gradients st)
              (compute_gradients co (variables st) (iterations st) b))"
    "iterations st2 = iterations st + (if applies_at (accum_steps c) i then 1 else 0)"
    "events st2 = events st"
    "accum_num_words st2 = foldl add_words (accum_num_words st) (num_words_of b)"
    "last_report_time st2 = last_report_time st"
    "last_step st2 = last_step st"
    "step st2 = Some (iterations st2)"
    "if iterations st2 = last_step st then st' = st2 \<and> \<not> brk
     else post_process co c i loss (iterations st2) st2 = Inr (st', brk)"
proof -
  have nz: "i = 0 \<or> accum_steps c \<noteq> 0"
    using assms by (auto simp: loop_body_def py_mod_def split: prod.splits if_splits)
  define st1 where "st1 = snd (snd (accumulate_gradients co st b))"
  define loss where "loss = fst (accumulate_gradients co st b)"
  define sta where "sta = (if applies_at (accum_steps c) i then apply_gradients co st1 else st1)"
  define st2 where
    "st2 = sta\<lparr>accum_num_words := foldl add_words (accum_num_words sta) (num_words_of b),
               step := Some (iterations sta)\<rparr>"
  have acc: "accumulate_gradients co st b = (loss, num_words_of b, st1)"
    by (simp add: st1_def loss_def accumulate_gradients_def Let_def)
  have st1: "st1 = st\<lparr>gradients := assign_add_all co (gradients st)
                         (compute_gradients co (variables st) (iterations st) b)\<rparr>"
    by (simp add: st1_def accumulate_gradients_def Let_def)
  have cond: "(if i = 0 then Inr True
               else (case py_mod (int i + 1) (accum_steps c) of
                       Inl e \<Rightarrow> Inl e
                     | Inr r \<Rightarrow> Inr (r = 0)))
              = (Inr (applies_at (accum_steps c) i) :: error + bool)"
    using nz by (auto simp: py_mod_def applies_at_def dvd_eq_mod_eq_0)
  have fin: "if iterations st2 = last_step st then st' = st2 \<and> \<not> brk
     else post_process co c i loss (iterations st2) st2 = Inr (st', brk)"
    using assms unfolding loop_body_def acc cond
    by (simp add: Let_def sta_def[symmetric] st2_def[symmetric])
      (auto simp: st2_def sta_def st1 apply_gradients_def split: if_splits)
  show ?thesis
    by (rule that[of st2 loss])
      (use fin in \<open>simp_all add: st2_def sta_def st1 apply_gradients_def\<close>)
qed

lemma loop_body_optimizer_state:
  assumes "loop_body co c i st b = Inr (st', brk)"
  shows "iterations st' = iterations st + (if applies_at (accum_steps c) i then 1 else 0)"
    and "variables st' = (if applies_at (accum_steps c) i
       then optimizer_apply_gradients co (iterations st)
              (assign_add_all co (gradients st)
                 (compute_gradients co (variables st) (iterations st) b))
              (variables st)
       else variables st)"
    and "gradients st' = (if applies_at (accum_steps c) i
       then map (zeros_like co)
              (assign_add_all co (gradients st)
                 (compute_gradients co (variables st) (iterations st) b))
       else assign_add_all co (gradients st)
              (compute_gradients co (variables st) (iterations st) b))"
proof -
  from assms obtain loss st2 where
    v2: "variables st2 = (if applies_at (accum_steps c) i
       then optimizer_apply_gradients co (iterations st)
              (assign_add_all co (gradients st)
                 (compute_gradients co (variables st) (iterations st) b))
              (variables st)
       else variables st)" and
    g2: "gradients st2 = (if applies_at (accum_steps c) i
       then map (zeros_like co)
              (assign_add_all co (gradients st)
                 (compute_gradients co (variables st) (iterations st) b))
       else assign_add_all co (gradients st)
              (compute_gradients co (variables st) (iterations st) b))" and
    it2: "iterations st2 = iterations st + (if applies_at (accum_steps c) i then 1 else 0)" and
    fin: "if iterations st2 = last_step st then st' = st2 \<and> \<not> brk
          else post_process co c i loss (iterations st2) st2 = Inr (st', brk)"
    by (rule loop_body_elim)
  have same: "iterations st' = iterations st2 \<and> variables st' = variables st2
              \<and> gradients st' = gradients st2"
  proof (cases "iterations st2 = last_step st")
    case True
    then show ?thesis using fin by simp
  next
    case False
    then have "post_process co c i loss (iterations st2) st2 = Inr (st', brk)"
      using fin by simp
    then show ?thesis by (simp add: post_process_frame)
  qed
  show "iterations st' = iterations st + (if applies_at (accum_steps c) i then 1 else 0)"
    using same it2 by simp
  show "variables st' = (if applies_at (accum_steps c) i
       then optimizer_apply_gradients co (iterations st)
              (assign_add_all co (gradients st)
                 (compute_gradients co (variables st) (iterations st) b))
              (variables st)
       else variables st)"
    using same v2 by simp
  show "gradients st' = (if applies_at (accum_steps c) i
       then map (zeros_like co)
              (assign_add_all co (gradients st)
                 (compute_gradients co (variables st) (iterations st) b))
       else assign_add_all co (gradients st)
              (compute_gradients co (variables st) (iterations st) b))"
    using same g2 by simp
qed

lemma loop_body_last_step:
  assumes "loop_body co c i st b = Inr (st', brk)"
  shows "last_step st' = iterations st'" and "step st' = Some (iterations st')"
    and "brk = (iterations st' \<noteq> last_step st \<and> max_step c = Some (iterations st'))"
proof -
  from assms obtain loss st2 where
    l2: "last_step st2 = last_step st" and s2: "step st2 = Some (iterations st2)" and
    fin: "if iterations st2 = last_step st then st' = st2 \<and> \<not> brk
          else post_process co c i loss (iterations st2) st2 = Inr (st', brk)"
    by (rule loop_body_elim)
  have "last_step st' = iterations st' \<and> step st' = Some (iterations st')
        \<and> brk = (iterations st' \<noteq> last_step st \<and> max_step c = Some (iterations st'))"
  proof (cases "iterations st2 = last_step st")
    case True
    then show ?thesis using fin l2 s2 by simp
  next
    case False
    then have pp: "post_process co c i loss (iterations st2) st2 = Inr (st', brk)"
      using fin by simp
    show ?thesis using post_process_frame[OF pp] False s2 by simp
  qed
  then show "last_step st' = iterations st'" and "step st' = Some (iterations st')"
    and "brk = (iterations st' \<noteq> last_step st \<and> max_step c = Some (iterations st'))"
    by simp_all
qed

lemma loop_body_events:
  assumes "loop_body co c i st b = Inr (st', brk)"
  shows "\<exists>ev. events st' = events st @ ev
           \<and> saves ev = (if iterations st' = last_step st then []
                          else case save_steps c of None \<Rightarrow> []
                               | Some n \<Rightarrow> if np_mod (iterations st') n = 0
                                           then [iterations st'] else [])"
proof -
  from assms obtain loss st2 where
    e2: "events st2 = events st" and
    fin: "if iterations st2 = last_step st then st' = st2 \<and> \<not> brk
          else post_process co c i loss (iterations st2) st2 = Inr (st', brk)"
    by (rule loop_body_elim)
  show ?thesis
  proof (cases "iterations st2 = last_step st")
    case True
    then show ?thesis using fin e2 by simp
  next
    case False
    then have pp: "post_process co c i loss (iterations st2) st2 = Inr (st', brk)"
      using fin by simp
    have it: "iterations st' = iterations st2" using post_process_frame(2)[OF pp] .
    show ?thesis using post_process_events[OF pp] False unfolding it e2 by simp
  qed
qed

lemma loop_body_skip:
  assumes "loop_body co c i st b = Inr (st', brk)" and "iterations st' = last_step st"
  shows "accum_num_words st' = foldl add_words (accum_num_words st) (num_words_of b)
         \<and> last_report_time st' = last_report_time st
         \<and> events st' = events st
         \<and> last_step st' = last_step st
         \<and> \<not> brk"
proof -
  from assms(1) obtain loss st2 where
    st2: "events st2 = events st"
      "accum_num_words st2 = foldl add_words (accum_num_words st) (num_words_of b)"
      "last_report_time st2 = last_report_time st"
      "last_step st2 = last_step st" and
    fin: "if iterations st2 = last_step st then st' = st2 \<and> \<not> brk
          else post_process co c i loss (iterations st2) st2 = Inr (st', brk)"
    by (rule loop_body_elim)
  have "iterations st2 = last_step st"
  proof (rule ccontr)
    assume ne: "iterations st2 \<noteq> last_step st"
    then have "post_process co c i loss (iterations st2) st2 = Inr (st', brk)"
      using fin by simp
    then have "iterations st' = iterations st2" by (rule post_process_frame(2))
    then show False using ne assms(2) by simp
  qed
  then have "st' = st2 \<and> \<not> brk" using fin by simp
  then show ?thesis using st2 by simp
qed

subsection \<open>The loop as a whole\<close>

lemma train_loop_Nil [simp]: "train_loop co c i st [] = Inr (st, False)"
  by (simp add: train_loop.simps next_batch_def)

lemma train_loop_Cons [simp]:
  "train_loop co c i st (b # bs) =
     (case loop_body co c i st b of
        Inl e \<Rightarrow> Inl e
      | Inr (st', brk) \<Rightarrow> if brk then Inr (st', True) else train_loop co c (Suc i) st' bs)"
  by (subst train_loop.simps) (simp add: next_batch_def)

lemma train_loop_exhausted_iterations:
  "train_loop co c i st bs = Inr (st', False) \<Longrightarrow>
     iterations st'
       = iterations st + int (length (filter (applies_at (accum_steps c)) [i..<i + length bs]))"
proof (induction bs arbitrary: i st)
  case Nil
  then show ?case by simp
next
  case (Cons b bs)
  from Cons.prems obtain st1 where
    body: "loop_body co c i st b = Inr (st1, False)" and
    rest: "train_loop co c (Suc i) st1 bs = Inr (st', False)"
    by (auto split: sum.splits if_splits)
  have up: "[i..<i + length (b # bs)] = i # [Suc i..<Suc i + length bs]"
    by (subst upt_rec) simp
  show ?case
    unfolding up using Cons.IH[OF rest] loop_body_optimizer_state(1)[OF body] by simp
qed

lemma count_applies_3:
  "length (filter (applies_at 3) [0..<n]) = (if n = 0 then 0 else 1 + n div 3)"
proof (induction n)
  case 0
  then show ?case by simp
next
  case (Suc n)
  have "applies_at 3 n = (n = 0 \<or> Suc n mod 3 = 0)"
    unfolding applies_at_def by presburger
  then show ?case using Suc by (auto simp: div_Suc)
qed

text \<open>
  A loop that ends in \<^verbatim>\<open>break\<close>, entered below \<^verbatim>\<open>max_step\<close>: it ends at \<^verbatim>\<open>max_step\<close>,
  and its own saves tagged \<^verbatim>\<open>max_step\<close> are the one of the last pass, if the cadence fires.
\<close>

lemma train_loop_break:
  assumes "train_loop co c i st bs = Inr (st', True)"
    and "max_step c = Some m" and "iterations st < m" and "last_step st < m"
  shows "iterations st' = m \<and> step st' = Some m
         \<and> (\<exists>ev. events st' = events st @ ev
               \<and> count_list (saves ev) m
                   = (case save_steps c of None \<Rightarrow> 0
                      | Some n \<Rightarrow> if np_mod m n = 0 then 1 else 0))"
  using assms
proof (induction bs arbitrary: i st)
  case Nil
  then show ?case by simp
next
  case (Cons b bs)
  from Cons.prems(1) obtain st1 brk1 where
    body: "loop_body co c i st b = Inr (st1, brk1)" and
    rest: "if brk1 then st' = st1 else train_loop co c (Suc i) st1 bs = Inr (st', True)"
    by (auto split: sum.splits if_splits)
  note it1 = loop_body_optimizer_state(1)[OF body]
  note ls1 = loop_body_last_step[OF body]
  from loop_body_events[OF body] obtain ev1 where
    ev1: "events st1 = events st @ ev1" and
    sv1: "saves ev1 = (if iterations st1 = last_step st then []
                          else case save_steps c of None \<Rightarrow> []
                               | Some n \<Rightarrow> if np_mod (iterations st1) n = 0
                                           then [iterations st1] else [])"
    by blast
  show ?case
  proof (cases brk1)
    case True
    then have eq: "st' = st1" and m: "iterations st1 = m"
      and ne: "iterations st1 \<noteq> last_step st"
      using rest ls1(3) Cons.prems(2) by auto
    have "count_list (saves ev1) m
            = (case save_steps c of None \<Rightarrow> 0 | Some n \<Rightarrow> if np_mod m n = 0 then 1 else 0)"
      using sv1 ne m by (simp split: option.splits)
    then show ?thesis using eq m ls1(2) ev1 by auto
  next
    case False
    then have rest': "train_loop co c (Suc i) st1 bs = Inr (st', True)" using rest by simp
    have nm: "iterations st1 \<noteq> m"
      using False ls1(3) Cons.prems(2,4) by auto
    have lt: "iterations st1 < m"
      using it1 nm Cons.prems(3) by (auto split: if_splits)
    have lt2: "last_step st1 < m" using ls1(1) lt by simp
    from Cons.IH[OF rest' Cons.prems(2) lt lt2] obtain ev where
      a: "iterations st' = m" "step st' = Some m" and
      ev: "events st' = events st1 @ ev" and
      cnt: "count_list (saves ev) m
              = (case save_steps c of None \<Rightarrow> 0 | Some n \<Rightarrow> if np_mod m n = 0 then 1 else 0)"
      by blast
    have z: "count_list (saves ev1) m = 0"
      using sv1 nm by (simp split: option.splits)
    have "events st' = events st @ (ev1 @ ev)" using ev ev1 by simp
    moreover have "count_list (saves (ev1 @ ev)) m
              = (case save_steps c of None \<Rightarrow> 0 | Some n \<Rightarrow> if np_mod m n = 0 then 1 else 0)"
      using z cnt by (simp add: saves_append)
    ultimately show ?thesis using a by blast
  qed
qed

subsection \<open>The call\<close>

lemma Trainer_call_reached:
  assumes "max_step c = Some m" and "m \<le> iterations tr"
  shows "Trainer_call co c tr ds
         = Inr (tr\<lparr>events := events tr @ [Warning m]\<rparr>, AlreadyReached)"
  using assms by (simp add: Trainer_call_def)

lemma Trainer_call_loop:
  assumes "Trainer_call co c tr ds = Inr (tr', ex)" and "ex \<noteq> AlreadyReached"
  obtains st stp where
    "train_loop co c 0 (init_loop_vars co tr) ds = Inr (st, ex = MaxStepReached)"
    "step st = Some stp"
    "tr' = \<lparr> variables = variables st, iterations = iterations st,
             events = events st @ [Save stp] \<rparr>"
    "case max_step c of None \<Rightarrow> True | Some m \<Rightarrow> iterations tr < m"
  using assms
  by (auto simp: Trainer_call_def split: option.splits if_splits sum.splits prod.splits)

lemma Trainer_call_exhausted_iterations:
  assumes "Trainer_call co c tr ds = Inr (tr', DatasetExhausted)"
  shows "iterations tr'
       = iterations tr + int (length (filter (applies_at (accum_steps c)) [0..<length ds]))"
    and "ds \<noteq> []"
proof -
  from assms obtain st stp where
    loop: "train_loop co c 0 (init_loop_vars co tr) ds = Inr (st, False)" and
    stp: "step st = Some stp" and
    tr': "tr' = \<lparr> variables = variables st, iterations = iterations st,
             events = events st @ [Save stp] \<rparr>"
    by (rule Trainer_call_loop) auto
  show "iterations tr'
       = iterations tr + int (length (filter (applies_at (accum_steps c)) [0..<length ds]))"
    using train_loop_exhausted_iterations[OF loop] tr' by (simp add: init_loop_vars_def)
  show "ds \<noteq> []" using loop stp by (auto simp: init_loop_vars_def)
qed

text \<open>
  What the final \<^verbatim>\<open>checkpoint.save(step)\<close> meets: after at least one pass \<^verbatim>\<open>step\<close> is bound
  to the iteration counter; with no pass it is unbound.
\<close>

lemma train_loop_binds_step:
  "train_loop co c i st bs = Inr (st', brk) \<Longrightarrow> bs \<noteq> [] \<Longrightarrow>
     step st' = Some (iterations st')"
proof (induction bs arbitrary: i st)
  case Nil
  then show ?case by simp
next
  case (Cons b bs)
  from Cons.prems(1) obtain st1 brk1 where
    body: "loop_body co c i st b = Inr (st1, brk1)" and
    rest: "if brk1 then st' = st1 \<and> brk
           else train_loop co c (Suc i) st1 bs = Inr (st', brk)"
    by (auto split: sum.splits if_splits)
  show ?case
  proof (cases "brk1 \<or> bs = []")
    case True
    then have "st' = st1" using rest by (auto split: if_splits)
    then show ?thesis using loop_body_last_step(2)[OF body] by simp
  next
    case False
    then show ?thesis using rest Cons.IH by auto
  qed
qed

lemma empty_dataset_always_raises:
  assumes "case max_step c of None \<Rightarrow> True | Some m \<Rightarrow> iterations tr < m"
  shows "Trainer_call co c tr [] = Inl UnboundLocalError"
  using assms by (auto simp: Trainer_call_def init_loop_vars_def split: option.splits)

lemma exhausted_run_final_save:
  assumes "Trainer_call co c tr ds = Inr (tr', DatasetExhausted)"
  shows "ds \<noteq> []" and "last (events tr') = Save (iterations tr')"
proof -
  from assms obtain st stp where
    loop: "train_loop co c 0 (init_loop_vars co tr) ds = Inr (st, False)" and
    stp: "step st = Some stp" and
    tr': "tr' = \<lparr> variables = variables st, iterations = iterations st,
             events = events st @ [Save stp] \<rparr>"
    by (rule Trainer_call_loop) auto
  show ne: "ds \<noteq> []" using loop stp by (auto simp: init_loop_vars_def)
  have "stp = iterations st" using train_loop_binds_step[OF loop ne] stp by simp
  then show "last (events tr') = Save (iterations tr')" using tr' by simp
qed

lemma Trainer_call_error_origin:
  assumes "Trainer_call co c tr ds = Inl e"
  shows "(ds = [] \<and> e = UnboundLocalError)
         \<or> train_loop co c 0 (init_loop_vars co tr) ds = Inl e"
proof (cases "train_loop co c 0 (init_loop_vars co tr) ds")
  case (Inl e')
  then show ?thesis using assms
    by (auto simp: Trainer_call_def split: option.splits if_splits)
next
  case (Inr r)
  obtain st brk where r: "r = (st, brk)" by (cases r)
  from assms Inr r have none: "step st = None" and e: "e = UnboundLocalError"
    by (auto simp: Trainer_call_def split: option.splits if_splits)
  have "ds = []"
  proof (rule ccontr)
    assume "ds \<noteq> []"
    then have "step st = Some (iterations st)"
      using train_loop_binds_step Inr r by blast
    then show False using none by simp
  qed
  then show ?thesis using e by simp
qed

subsection \<open>The small run, evaluated\<close>

lemmas run_defs = Trainer_call_def init_loop_vars_def loop_body_def post_process_def
  accumulate_gradients_def apply_gradients_def py_mod_def np_mod_def reduce_sum_def
  report_training_status_def words_per_sec_def int_of_float_def num_words_of_def
  assign_add_all_def optimizer_apply_gradients_def Let_def

lemmas example_defs = example_collaborators_def example_config_def example_trainer_def
  example_batch_def example_mid_state_def

lemma example_three_micro_steps:
  "Trainer_call example_collaborators example_config example_trainer
     [example_batch, example_batch, example_batch]
   = Inr (\<lparr> variables = [7], iterations = 2, events = [Save 2] \<rparr>, DatasetExhausted)"
  by (simp add: run_defs example_defs)

lemma example_first_micro_step:
  "loop_body example_collaborators example_config 0
     (init_loop_vars example_collaborators example_trainer) example_batch
   = Inr (example_mid_state, False)"
  by (simp add: run_defs example_defs)

lemma example_second_micro_step:
  "loop_body example_collaborators example_config 1 example_mid_state example_batch
   = Inr (example_mid_state\<lparr>gradients := [1], accum_num_words := [(''source'', 10)]\<rparr>, False)"
  by (simp add: run_defs example_defs)

lemma example_already_reached:
  "Trainer_call example_collaborators (example_config\<lparr>max_step := Some 5\<rparr>)
     (example_trainer\<lparr>iterations := 5\<rparr>) [example_batch]
   = Inr (\<lparr> variables = [10], iterations = 5, events = [Warning 5] \<rparr>, AlreadyReached)"
  by (simp add: run_defs example_defs)

lemma example_double_save:
  "Trainer_call example_collaborators
     (example_config\<lparr>max_step := Some 2, accum_steps := 1, save_steps := Some 2\<rparr>)
     example_trainer [example_batch, example_batch, example_batch]
   = Inr (\<lparr> variables = [8], iterations = 2, events = [Save 2, Save 2] \<rparr>, MaxStepReached)"
  by (simp add: run_defs example_defs)

section \<open>The properties\<close>

subsection \<open>The training loop\<close>

text \<open>
  C1, as amended. In a pass of the loop body that returns, the accumulated gradients are
  applied to the variables, the accumulators are zeroed and the optimizer's iteration
  counter advances by one exactly when the pass is the first micro-step or its 1-based
  index is a multiple of \<^verbatim>\<open>accum_steps\<close>; in every other pass the counter and the
  variables stay and the step gradients are only added to the accumulators. So a run
  that consumes all \<open>n\<close> batches advances the counter once per such index below \<open>n\<close>,
  and with \<^verbatim>\<open>accum_steps=3\<close> that is once on the first micro-step and once on every third:
  \<open>1 + n div 3\<close> times.
\<close>

theorem gradients_applied_at_first_and_multiples:
  "(loop_body co c i st b = Inr (st', brk) \<longrightarrow>
      (if applies_at (accum_steps c) i
       then iterations st' = iterations st + 1
            \<and> variables st'
                = optimizer_apply_gradients co (iterations st)
                    (assign_add_all co (gradients st)
                       (compute_gradients co (variables st) (iterations st) b))
                    (variables st)
            \<and> gradients st'
                = map (zeros_like co)
                    (assign_add_all co (gradients st)
                       (compute_gradients co (variables st) (iterations st) b))
       else iterations st' = iterations st
            \<and> variables st' = variables st
            \<and> gradients st'
                = assign_add_all co (gradients st)
                    (compute_gradients co (variables st) (iterations st) b)))
   \<and> (Trainer_call co c tr ds = Inr (tr', DatasetExhausted) \<longrightarrow>
        iterations tr'
          = iterations tr
            + int (length (filter (applies_at (accum_steps c)) [0..<length ds])))
   \<and> (accum_steps c = 3 \<and> Trainer_call co c tr ds = Inr (tr', DatasetExhausted) \<longrightarrow>
        iterations tr' = iterations tr + 1 + int (length ds div 3))"
proof (intro conjI impI)
  assume body: "loop_body co c i st b = Inr (st', brk)"
  show "if applies_at (accum_steps c) i
       then iterations st' = iterations st + 1
            \<and> variables st'
                = optimizer_apply_gradients co (iterations st)
                    (assign_add_all co (gradients st)
                       (compute_gradients co (variables st) (iterations st) b))
                    (variables st)
            \<and> gradients st'
                = map (zeros_like co)
                    (assign_add_all co (gradients st)
                       (compute_gradients co (variables st) (iterations st) b))
       else iterations st' = iterations st
            \<and> variables st' = variables st
            \<and> gradients st'
                = assign_add_all co (gradients st)
                    (compute_gradients co (variables st) (iterations st) b)"
    using loop_body_optimizer_state[OF body] by simp
next
  assume "Trainer_call co c tr ds = Inr (tr', DatasetExhausted)"
  then show "iterations tr'
          = iterations tr
            + int (length (filter (applies_at (accum_steps c)) [0..<length ds]))"
    by (rule Trainer_call_exhausted_iterations(1))
next
  assume a: "accum_steps c = 3 \<and> Trainer_call co c tr ds = Inr (tr', DatasetExhausted)"
  then have run: "Trainer_call co c tr ds = Inr (tr', DatasetExhausted)" by simp
  have "length ds \<noteq> 0" using Trainer_call_exhausted_iterations(2)[OF run] by simp
  then show "iterations tr' = iterations tr + 1 + int (length ds div 3)"
    using Trainer_call_exhausted_iterations(1)[OF run] a by (simp add: count_applies_3)
qed

theorem gradients_applied_at_first_and_multiples_witness:
  "Trainer_call example_collaborators example_config example_trainer
     [example_batch, example_batch, example_batch]
   = Inr (\<lparr> variables = [7], iterations = 2, events = [Save 2] \<rparr>, DatasetExhausted)
   \<and> accum_steps example_config = 3
   \<and> iterations \<lparr> variables = [7::int], iterations = 2, events = [Save 2] \<rparr>
       = iterations example_trainer
         + 1 + int (length [example_batch, example_batch, example_batch] div 3)
   \<and> loop_body example_collaborators example_config 0
        (init_loop_vars example_collaborators example_trainer) example_batch
       = Inr (example_mid_state, False)
   \<and> applies_at (accum_steps example_config) 0
   \<and> iterations example_mid_state
       = iterations (init_loop_vars example_collaborators example_trainer) + 1"
proof -
  note run = example_three_micro_steps
  note body = example_first_micro_step
  have a: "accum_steps example_config = 3" by (simp add: example_config_def)
  have b: "applies_at (accum_steps example_config) 0" by (simp add: applies_at_def)
  note inst = gradients_applied_at_first_and_multiples
    [of example_collaborators example_config 0
       "init_loop_vars example_collaborators example_trainer" example_batch
       example_mid_state False example_trainer
       "[example_batch, example_batch, example_batch]"
       "\<lparr> variables = [7], iterations = 2, events = [Save 2] \<rparr>"]
  from inst a run
  have c: "iterations \<lparr> variables = [7::int], iterations = 2, events = [Save 2] \<rparr>
       = iterations example_trainer
         + 1 + int (length [example_batch, example_batch, example_batch] div 3)"
    by blast
  from inst body b
  have d: "iterations example_mid_state
       = iterations (init_loop_vars example_collaborators example_trainer) + 1"
    by simp
  show ?thesis using run a b c d body by blast
qed

text \<open>
  C1 as stated fails in its last clause: with \<^verbatim>\<open>accum_steps=3\<close> the counter does not
  advance exactly once every 3 micro-steps. In the small run the counter starts at 0 and
  is 2 after exactly 3 micro-steps: it advanced on the first and on the third.
\<close>

theorem counter_advances_twice_in_first_three_micro_steps:
  "accum_steps example_config = 3
   \<and> iterations example_trainer = 0
   \<and> map_sum id (\<lambda>(tr, ex). (iterations tr, ex))
        (Trainer_call example_collaborators example_config example_trainer
           [example_batch, example_batch, example_batch])
      = Inr (2, DatasetExhausted)"
  by (simp add: example_three_micro_steps) (simp add: example_defs)

text \<open>
  C2, as amended. A pass of the loop body after which the iteration counter equals the
  step observed last still adds the word counts of its batch to the running totals; it
  skips the rest of the post-processing: the last report time, the log of reports,
  checkpoint saves and evaluations, and the step observed last are unchanged, and the
  loop does not break.
\<close>

theorem skipped_micro_step_still_counts_words:
  assumes "loop_body co c i st b = Inr (st', brk)"
    and "iterations st' = last_step st"
  shows "accum_num_words st' = foldl add_words (accum_num_words st) (num_words_of b)
         \<and> last_report_time st' = last_report_time st
         \<and> events st' = events st
         \<and> last_step st' = last_step st
         \<and> \<not> brk"
  using assms by (rule loop_body_skip)

theorem skipped_micro_step_still_counts_words_witness:
  "loop_body example_collaborators example_config 1 example_mid_state example_batch
     = Inr (example_mid_state\<lparr>gradients := [1], accum_num_words := [(''source'', 10)]\<rparr>,
            False)
   \<and> iterations (example_mid_state\<lparr>gradients := [1], accum_num_words := [(''source'', 10)]\<rparr>)
       = last_step example_mid_state
   \<and> accum_num_words
        (example_mid_state\<lparr>gradients := [1], accum_num_words := [(''source'', 10)]\<rparr>)
       = foldl add_words (accum_num_words example_mid_state) (num_words_of example_batch)
   \<and> events (example_mid_state\<lparr>gradients := [1], accum_num_words := [(''source'', 10)]\<rparr>)
       = events example_mid_state"
proof -
  have eq: "iterations
              (example_mid_state\<lparr>gradients := [1], accum_num_words := [(''source'', 10)]\<rparr>)
            = last_step example_mid_state"
    by (simp add: example_mid_state_def)
  from skipped_micro_step_still_counts_words[OF example_second_micro_step eq]
  show ?thesis using example_second_micro_step eq by blast
qed

text \<open>
  C2 as stated fails: the word counts are added before the loop compares the counter
  with the step observed last. The second micro-step of the small run leaves the counter
  at the step observed last, and the source total goes from 5 to 10.
\<close>

theorem skipped_micro_step_changes_word_totals:
  "loop_body example_collaborators example_config 0
     (init_loop_vars example_collaborators example_trainer) example_batch
     = Inr (example_mid_state, False)
   \<and> loop_body example_collaborators example_config 1 example_mid_state example_batch
     = Inr (example_mid_state\<lparr>gradients := [1], accum_num_words := [(''source'', 10)]\<rparr>,
            False)
   \<and> iterations (example_mid_state\<lparr>gradients := [1], accum_num_words := [(''source'', 10)]\<rparr>)
       = last_step example_mid_state
   \<and> accum_num_words example_mid_state = [(''source'', 5)]
   \<and> accum_num_words
        (example_mid_state\<lparr>gradients := [1], accum_num_words := [(''source'', 10)]\<rparr>)
       \<noteq> accum_num_words example_mid_state"
proof (intro conjI)
  show "loop_body example_collaborators example_config 0
     (init_loop_vars example_collaborators example_trainer) example_batch
     = Inr (example_mid_state, False)"
    by (rule example_first_micro_step)
  show "loop_body example_collaborators example_config 1 example_mid_state example_batch
     = Inr (example_mid_state\<lparr>gradients := [1], accum_num_words := [(''source'', 10)]\<rparr>,
            False)"
    by (rule example_second_micro_step)
qed (simp_all add: example_mid_state_def)

text \<open>
  C4, as amended. When the optimizer's iteration counter already meets or exceeds
  \<^verbatim>\<open>max_step\<close>, the call logs a warning and returns at once: no batch is processed, the
  variables and the counter are as before, and no checkpoint is saved.
\<close>

theorem max_step_already_reached_returns_without_save:
  assumes "max_step c = Some m" and "m \<le> iterations tr"
  shows "Trainer_call co c tr ds
           = Inr (tr\<lparr>events := events tr @ [Warning m]\<rparr>, AlreadyReached)
         \<and> saves (events (tr\<lparr>events := events tr @ [Warning m]\<rparr>)) = saves (events tr)"
  using Trainer_call_reached[OF assms] by (simp add: saves_append)

theorem max_step_already_reached_returns_without_save_witness:
  "max_step (example_config\<lparr>max_step := Some 5\<rparr>) = Some 5
   \<and> 5 \<le> iterations (example_trainer\<lparr>iterations := 5\<rparr>)
   \<and> Trainer_call example_collaborators (example_config\<lparr>max_step := Some 5\<rparr>)
        (example_trainer\<lparr>iterations := 5\<rparr>) [example_batch]
       = Inr (example_trainer\<lparr>iterations := 5,
                events := events (example_trainer\<lparr>iterations := 5\<rparr>) @ [Warning 5]\<rparr>,
              AlreadyReached)"
proof -
  have a: "max_step (example_config\<lparr>max_step := Some 5\<rparr>) = Some 5" by simp
  have b: "5 \<le> iterations (example_trainer\<lparr>iterations := 5\<rparr>)" by simp
  from max_step_already_reached_returns_without_save[OF a b, of example_collaborators
      "[example_batch]"]
  show ?thesis using a b by simp
qed

text \<open>
  C4 as stated fails: the early return saves no checkpoint. With the counter at 5 and
  \<^verbatim>\<open>max_step=5\<close> the whole log of the call is the warning.
\<close>

theorem max_step_already_reached_no_checkpoint:
  "Trainer_call example_collaborators (example_config\<lparr>max_step := Some 5\<rparr>)
     (example_trainer\<lparr>iterations := 5\<rparr>) [example_batch]
   = Inr (\<lparr> variables = [10], iterations = 5, events = [Warning 5] \<rparr>, AlreadyReached)
   \<and> saves [Warning 5] = []"
  by (simp add: example_already_reached)

text \<open>
  C5 at the input where the code departs from it: on a dataset with no batch the loop
  body never binds \<^verbatim>\<open>step\<close>, and the final \<^verbatim>\<open>checkpoint.save(step)\<close> raises instead of
  saving.
\<close>

theorem empty_dataset_raises_unbound_step:
  "Trainer_call example_collaborators example_config example_trainer []
   = Inl UnboundLocalError"
  by (simp add: run_defs example_defs)

text \<open>
  C9. When a run stops by reaching \<^verbatim>\<open>max_step\<close> and \<^verbatim>\<open>max_step\<close> is a positive multiple of
  \<^verbatim>\<open>save_steps\<close>, the log of the run holds exactly two \<^verbatim>\<open>checkpoint.save\<close> calls tagged
  \<^verbatim>\<open>max_step\<close>: the one of the cadence in the last pass of the loop, and the final one,
  which is the last entry of the log.
\<close>

theorem max_step_multiple_of_save_steps_saves_twice:
  assumes "Trainer_call co c tr ds = Inr (tr', MaxStepReached)"
    and "max_step c = Some m" and "save_steps c = Some n"
    and "0 < m" and "n dvd m"
  shows "count_list (saves (drop (length (events tr)) (events tr'))) m = 2
         \<and> take (length (events tr)) (events tr') = events tr
         \<and> last (events tr') = Save m"
proof -
  from assms(1) obtain st stp where
    loop: "train_loop co c 0 (init_loop_vars co tr) ds = Inr (st, True)" and
    stp: "step st = Some stp" and
    tr': "tr' = \<lparr> variables = variables st, iterations = iterations st,
             events = events st @ [Save stp] \<rparr>" and
    lt: "case max_step c of None \<Rightarrow> True | Some m \<Rightarrow> iterations tr < m"
    by (rule Trainer_call_loop) auto
  have lt': "iterations (init_loop_vars co tr) < m"
    using lt assms(2) by (simp add: init_loop_vars_def)
  have ls: "last_step (init_loop_vars co tr) < m"
    using assms(4) by (simp add: init_loop_vars_def)
  have fire: "np_mod m n = 0" using assms(5) by (auto simp: np_mod_def)
  from train_loop_break[OF loop assms(2) lt' ls] obtain ev where
    s: "step st = Some m" and
    ev: "events st = events (init_loop_vars co tr) @ ev" and
    cnt: "count_list (saves ev) m = 1"
    using assms(3) fire by auto
  have all: "events tr' = events tr @ (ev @ [Save m])"
    using tr' ev s stp by (simp add: init_loop_vars_def)
  then have "drop (length (events tr)) (events tr') = ev @ [Save m]" by simp
  then have "count_list (saves (drop (length (events tr)) (events tr'))) m = 2"
    using cnt by (simp add: saves_append)
  moreover have "take (length (events tr)) (events tr') = events tr"
    using all by simp
  moreover have "last (events tr') = Save m"
    using all by simp
  ultimately show ?thesis by simp
qed

theorem max_step_multiple_of_save_steps_saves_twice_witness:
  "Trainer_call example_collaborators
     (example_config\<lparr>max_step := Some 2, accum_steps := 1, save_steps := Some 2\<rparr>)
     example_trainer [example_batch, example_batch, example_batch]
   = Inr (\<lparr> variables = [8], iterations = 2, events = [Save 2, Save 2] \<rparr>, MaxStepReached)
   \<and> (0::int) < 2 \<and> (2::int) dvd 2
   \<and> count_list (saves (drop (length (events example_trainer)) [Save 2, Save 2])) 2 = 2"
proof -
  have a: "max_step (example_config\<lparr>max_step := Some 2, accum_steps := 1,
                       save_steps := Some 2\<rparr>) = Some 2"
    and b: "save_steps (example_config\<lparr>max_step := Some 2, accum_steps := 1,
                          save_steps := Some 2\<rparr>) = Some 2"
    by simp_all
  have c: "(0::int) < 2" and d: "(2::int) dvd 2" by simp_all
  from max_step_multiple_of_save_steps_saves_twice[OF example_double_save a b c d]
  show ?thesis using example_double_save by simp
qed

subsection \<open>The schedules\<close>

text \<open>
  C3, as amended. For every step \<open>t\<close> and hyperparameters, the RNMTPlus schedule is
  \<open>scale * min(1 + t*(n-1)/(n*p), n, n * (2*n)^((s - n*t)/(e - s)))\<close>: the base of the
  exponential-decay term is twice the number of replicas.
\<close>

theorem rnmtplus_decay_base_is_twice_replicas:
  "RNMTPlusDecay_call (RNMTPlusDecay_init scale n p s e) t
     = scale * Min {1 + real_of_int t * (n - 1) / (n * p),
                    n,
                    n * (2 * n) powr ((s - n * real_of_int t) / (e - s))}"
  by (simp add: schedule_defs Let_def min.assoc)

text \<open>
  C3 as stated fails: with the default hyperparameters and 4 replicas, at step 450000
  the exponent is -2; the schedule gives \<open>4 * 8^(-2) = 1/16\<close>, the formula with base 2
  gives \<open>min(676, 4, 4 * 2^(-2)) = 1\<close>.
\<close>

theorem rnmtplus_decay_base_two_fails:
  "RNMTPlusDecay_call (RNMTPlusDecay_init 1 4 500 600000 1200000) 450000 = 1 / 16
   \<and> rnmtplus_base_two 1 4 500 600000 1200000 450000 = 1
   \<and> RNMTPlusDecay_call (RNMTPlusDecay_init 1 4 500 600000 1200000) 450000
       \<noteq> rnmtplus_base_two 1 4 500 600000 1200000 450000"
proof -
  have a: "RNMTPlusDecay_call (RNMTPlusDecay_init 1 4 500 600000 1200000) 450000 = 1 / 16"
    by (simp add: schedule_defs Let_def powr_minus)
  have b: "rnmtplus_base_two 1 4 500 600000 1200000 450000 = 1"
    by (simp add: rnmtplus_base_two_def powr_minus)
  show ?thesis unfolding a b by simp
qed

text \<open>
  C6. The Noam schedule is \<open>scale * dim^(-0.5) * min((s+1)^(-0.5), (s+1) * warmup^(-1.5))\<close>:
  the caller's step is incremented by one before use. With scale 1, dimension 512 and
  warmup 4000 the value at step 0 is \<open>512^(-0.5) * min(1, 4000^(-1.5))\<close>, and at every
  step from 0 to \<open>10^6\<close> the value is non-negative and bounded (by 1), hence finite.
\<close>

theorem noam_decay_formula_and_bounds:
  "NoamDecay_call (NoamDecay_init scale model_dim warmup) s
     = scale * model_dim powr (- 0.5)
       * min ((real_of_int s + 1) powr (- 0.5)) ((real_of_int s + 1) * warmup powr (- 1.5))
   \<and> NoamDecay_call (NoamDecay_init 1 512 4000) 0
       = 512 powr (- 0.5) * min 1 (4000 powr (- 1.5))
   \<and> (0 \<le> t \<and> t \<le> 10 ^ 6 \<longrightarrow>
        0 \<le> NoamDecay_call (NoamDecay_init 1 512 4000) t
        \<and> NoamDecay_call (NoamDecay_init 1 512 4000) t \<le> 1)"
proof (intro conjI impI)
  show "NoamDecay_call (NoamDecay_init scale model_dim warmup) s
     = scale * model_dim powr (- 0.5)
       * min ((real_of_int s + 1) powr (- 0.5)) ((real_of_int s + 1) * warmup powr (- 1.5))"
    by (rule noam_formula)
  show "NoamDecay_call (NoamDecay_init 1 512 4000) 0
       = 512 powr (- 0.5) * min 1 (4000 powr (- 1.5))"
    by (simp add: noam_formula)
next
  assume "0 \<le> t \<and> t \<le> 10 ^ 6"
  then have "0 \<le> t" by simp
  then show "0 \<le> NoamDecay_call (NoamDecay_init 1 512 4000) t"
    and "NoamDecay_call (NoamDecay_init 1 512 4000) t \<le> 1"
    by (rule noam_bounds)+
qed

theorem noam_decay_formula_and_bounds_witness:
  "(0::int) \<le> 3999 \<and> (3999::int) \<le> 10 ^ 6
   \<and> 0 \<le> NoamDecay_call (NoamDecay_init 1 512 4000) 3999
   \<and> NoamDecay_call (NoamDecay_init 1 512 4000) 3999 \<le> 1"
proof -
  have a: "(0::int) \<le> 3999 \<and> (3999::int) \<le> 10 ^ 6" by simp
  from noam_decay_formula_and_bounds[of 1 512 4000 0 3999] a
  show ?thesis by blast
qed

text \<open>
  C7. The CosineAnnealing schedule is the linear ramp \<open>eta_max * step / warmup\<close> when a
  warmup is configured and the step is below it, and otherwise
  \<open>eta_min + 0.5 * (eta_max - eta_min) * (1 + cos(pi * step / max_step))\<close>. With
  \<open>eta_max = 1\<close>, \<open>eta_min = 0\<close>, \<open>max_step = 1000\<close> and no warmup the value is 1 at step 0,
  0 at step 1000, and non-increasing from step 0 to step 1000.
\<close>

theorem cosine_annealing_formula_and_monotone:
  "(warmup = Some w \<and> real_of_int s < w \<longrightarrow>
      CosineAnnealing_call (CosineAnnealing_init eta_max eta_min max_stp warmup) s
        = eta_max * real_of_int s / w)
   \<and> (warmup = None \<or> (warmup = Some w \<and> \<not> real_of_int s < w) \<longrightarrow>
      CosineAnnealing_call (CosineAnnealing_init eta_max eta_min max_stp warmup) s
        = eta_min + 0.5 * (eta_max - eta_min) * (1 + cos (pi * real_of_int s / max_stp)))
   \<and> CosineAnnealing_call (CosineAnnealing_init 1 0 1000 None) 0 = 1
   \<and> CosineAnnealing_call (CosineAnnealing_init 1 0 1000 None) 1000 = 0
   \<and> (0 \<le> s1 \<and> s1 \<le> s2 \<and> s2 \<le> 1000 \<longrightarrow>
        CosineAnnealing_call (CosineAnnealing_init 1 0 1000 None) s2
          \<le> CosineAnnealing_call (CosineAnnealing_init 1 0 1000 None) s1)"
proof (intro conjI impI)
  assume "warmup = Some w \<and> real_of_int s < w"
  then show "CosineAnnealing_call (CosineAnnealing_init eta_max eta_min max_stp warmup) s
        = eta_max * real_of_int s / w"
    by (simp add: schedule_defs)
next
  assume "warmup = None \<or> (warmup = Some w \<and> \<not> real_of_int s < w)"
  then show "CosineAnnealing_call (CosineAnnealing_init eta_max eta_min max_stp warmup) s
        = eta_min + 0.5 * (eta_max - eta_min) * (1 + cos (pi * real_of_int s / max_stp))"
    by (auto simp: schedule_defs)
next
  show "CosineAnnealing_call (CosineAnnealing_init 1 0 1000 None) 0 = 1"
    by (simp add: cosine_no_warmup)
  show "CosineAnnealing_call (CosineAnnealing_init 1 0 1000 None) 1000 = 0"
    by (simp add: cosine_no_warmup)
next
  assume "0 \<le> s1 \<and> s1 \<le> s2 \<and> s2 \<le> 1000"
  then show "CosineAnnealing_call (CosineAnnealing_init 1 0 1000 None) s2
          \<le> CosineAnnealing_call (CosineAnnealing_init 1 0 1000 None) s1"
    by (simp add: cosine_monotone)
qed

theorem cosine_annealing_formula_and_monotone_witness:
  "real_of_int 50 < 100
   \<and> CosineAnnealing_call (CosineAnnealing_init 1 0 1000 (Some 100)) 50 = 1 * real_of_int 50 / 100
   \<and> \<not> real_of_int 100 < 100
   \<and> CosineAnnealing_call (CosineAnnealing_init 1 0 1000 (Some 100)) 100
       = 0 + 0.5 * (1 - 0) * (1 + cos (pi * real_of_int 100 / 1000))
   \<and> (0::int) \<le> 250 \<and> (250::int) \<le> 750 \<and> (750::int) \<le> 1000
   \<and> CosineAnnealing_call (CosineAnnealing_init 1 0 1000 None) 750
       \<le> CosineAnnealing_call (CosineAnnealing_init 1 0 1000 None) 250"
proof -
  note ramp = cosine_annealing_formula_and_monotone
    [of "Some 100" 100 50 1 0 1000 250 750]
  note anneal = cosine_annealing_formula_and_monotone
    [of "Some 100" 100 100 1 0 1000 250 750]
  have a: "real_of_int 50 < (100::real)" and b: "\<not> real_of_int 100 < (100::real)"
    and c: "(0::int) \<le> 250 \<and> (250::int) \<le> 750 \<and> (750::int) \<le> 1000"
    by simp_all
  from ramp a
  have r: "CosineAnnealing_call (CosineAnnealing_init 1 0 1000 (Some 100)) 50
             = 1 * real_of_int 50 / 100"
    by blast
  from anneal b
  have n: "CosineAnnealing_call (CosineAnnealing_init 1 0 1000 (Some 100)) 100
       = 0 + 0.5 * (1 - 0) * (1 + cos (pi * real_of_int 100 / 1000))"
    by blast
  from ramp c
  have m: "CosineAnnealing_call (CosineAnnealing_init 1 0 1000 None) 750
       \<le> CosineAnnealing_call (CosineAnnealing_init 1 0 1000 None) 250"
    by blast
  show ?thesis using a b c r n m by blast
qed

text \<open>
  C8 at an input where the code departs from it, the claim's own schedule (scale 2,
  warmup 1000) at step 1000: the call reads \<^verbatim>\<open>tf.rsqrt\<close> and raises instead of returning
  \<open>2 / sqrt 1000\<close>. It does so at every step and for every scale and warmup.
\<close>

theorem rsqrt_decay_call_raises_attribute_error:
  "RsqrtDecay_call (RsqrtDecay_init 2 1000) 1000 = Inl AttributeError"
  by (rule RsqrtDecay_call_raises)


end
